theory Spec2Isabelle
  imports Main "HOL-Library.AList"
begin

section \<open>The docker runner of the ArangoDB starter (service/runner_docker.go)\<close>

text \<open>
  The runner starts database processes in docker containers, remembers the identifier of
  every container it created, and reclaims old containers in a background collector.
  The embedding follows the Go source function by function. The docker client is a remote
  service: each of its calls is modelled by the answer the runtime gives, taken as a
  parameter, so that every theorem holds for every behaviour of the runtime. Calls made to
  the client and lines written to the log are returned as a list of effects.

  Instants (\<open>time.Time\<close>) and durations (\<open>time.Duration\<close>) are integers of one common
  unit; \<open>t.Before(u)\<close> is \<open>t < u\<close> and \<open>t.Add(-d)\<close> is \<open>t - d\<close>.
\<close>

subsection \<open>Errors\<close>

text \<open>
  An error of the docker client is either \<open>*docker.NoSuchContainer\<close> or something else.
  \<open>errgo\<close> wraps an error in an \<open>*errgo.Err\<close> that holds the underlying error and a
  cause; \<open>errgo.Cause\<close> returns the cause of such a wrapper when it has one, and the error
  itself otherwise.
\<close>

datatype error =
    NoSuchContainer string
  | OtherError string
  | ErrgoErr "error option" error

fun Cause :: "error \<Rightarrow> error" where
  "Cause (ErrgoErr (Some c) u) = c"
| "Cause e = e"

fun is_NoSuchContainer :: "error \<Rightarrow> bool" where
  "is_NoSuchContainer (NoSuchContainer i) = True"
| "is_NoSuchContainer e = False"

text \<open>
  Modelled from the spec: \<open>maskAny\<close> is declared in another file of package service.
  Start passes every failure through it, and the specification has the failure reach the
  caller, its cause still recognisable through the layer that wraps errors: the errgo
  mask that lets every cause through. It wraps the error and keeps its cause.
\<close>

definition maskAny :: "error \<Rightarrow> error" where
  "maskAny e = ErrgoErr (Some (Cause e)) e"

definition isNoSuchContainer :: "error \<Rightarrow> bool" where
  "isNoSuchContainer err =
     (if is_NoSuchContainer err then True
      else if is_NoSuchContainer (Cause err) then True
      else False)"

subsection \<open>Data of the docker client\<close>

record docker_State =
  StateString :: string
  FinishedAt :: int

record container =
  ID :: string
  Created :: int
  State :: docker_State

record PortBinding =
  HostIP :: string
  HostPort :: string

text \<open>
  Go maps are association lists with distinct keys, written with \<open>AList.update\<close> and
  \<open>AList.delete\<close>. Go leaves the order in which \<open>range\<close> visits a map open; the list
  fixes one, and the theorems speak of the set of entries only.
\<close>

record docker_Config =
  Image :: string
  Entrypoint :: "string list"
  Cmd :: "string list"
  Tty :: bool
  User :: string
  ExposedPorts :: "(string \<times> unit) list"

record docker_HostConfig =
  Binds :: "string list"
  VolumesFrom :: "string list"
  PortBindings :: "(string \<times> PortBinding list) list"
  PublishAllPorts :: bool
  AutoRemove :: bool

record CreateContainerOptions =
  Name :: string
  Config :: docker_Config
  HostConfig :: docker_HostConfig

text \<open>\<open>Volume\<close> is declared in another file of package service; Start reads these fields.\<close>

record Volume =
  HostPath :: string
  ContainerPath :: string
  ReadOnly :: bool

text \<open>
  What a function does to the outside: calls of the docker client and log lines. A log
  line is its format and its arguments; every warning of the source has a container
  identifier and an error as arguments.
\<close>

datatype effect =
    PullImage "string \<times> string"
  | CreateContainer CreateContainerOptions
  | StartContainer string docker_HostConfig
  | InspectContainer string
  | RemoveContainer string bool
  | Debugf string "string list"
  | Infof string "string list"
  | Warningf string string error

subsection \<open>The runner\<close>

text \<open>
  \<open>containerIDs\<close> is \<open>None\<close> for the nil map. The logger, the client and the mutex hold
  no data of the model; \<open>gcOnce\<close> is True once the collector has been launched.
\<close>

record dockerRunner =
  image_ref :: string
  user :: string
  volumesFrom :: string
  containerIDs :: "(string \<times> int) list option"
  gcOnce :: bool
  gcDelay :: int

record dockerContainer =
  container :: container

datatype panic = AssignmentToNilMap

definition NewDockerRunner :: "string \<Rightarrow> string \<Rightarrow> string \<Rightarrow> int \<Rightarrow> dockerRunner" where
  "NewDockerRunner img usr vf delay =
     \<lparr>image_ref = img, user = usr, volumesFrom = vf, containerIDs = Some [],
      gcOnce = False, gcDelay = delay\<rparr>"

definition GetContainerDir :: "dockerRunner \<Rightarrow> string \<Rightarrow> string" where
  "GetContainerDir r hostDir = (if volumesFrom r \<noteq> [] then hostDir else ''/data'')"

text \<open>Reading a nil map gives no entry.\<close>

definition registry :: "dockerRunner \<Rightarrow> (string \<times> int) list" where
  "registry r = (case containerIDs r of None \<Rightarrow> [] | Some m \<Rightarrow> m)"

definition registered :: "dockerRunner \<Rightarrow> string set" where
  "registered r = fst ` set (registry r)"

definition recordContainerID :: "dockerRunner \<Rightarrow> string \<Rightarrow> int \<Rightarrow> panic + dockerRunner" where
  "recordContainerID r i now =
     (case containerIDs r of
        None \<Rightarrow> Inl AssignmentToNilMap
      | Some m \<Rightarrow> Inr (r\<lparr>containerIDs := Some (AList.update i now m)\<rparr>))"

definition unrecordContainerID :: "dockerRunner \<Rightarrow> string \<Rightarrow> dockerRunner" where
  "unrecordContainerID r i =
     (case containerIDs r of
        None \<Rightarrow> r
      | Some m \<Rightarrow> r\<lparr>containerIDs := Some (AList.delete i m)\<rparr>)"

subsection \<open>Strings\<close>

text \<open>
  \<open>strings.Replace(s, old, new, -1)\<close> for a pattern \<open>old\<close> that is not empty, as Start
  calls it: every occurrence of \<open>old\<close>, found from the left without overlap, is replaced.
\<close>

function strings_Replace :: "string \<Rightarrow> string \<Rightarrow> string \<Rightarrow> string" where
  "strings_Replace [] old new = []"
| "strings_Replace (c # cs) old new =
     (if old \<noteq> [] \<and> take (length old) (c # cs) = old
      then new @ strings_Replace (drop (length old) (c # cs)) old new
      else c # strings_Replace cs old new)"
  by pat_completeness auto
termination
  by (relation "measure (\<lambda>(s, old, new). length s)") auto

text \<open>\<open>strconv.Itoa\<close>, and \<open>%d\<close> of \<open>fmt.Sprintf\<close>: the decimal digits, after a minus sign
  when the number is negative.\<close>

function formatNat :: "nat \<Rightarrow> string" where
  "formatNat n =
     (if n < 10 then [''0123456789'' ! n]
      else formatNat (n div 10) @ [''0123456789'' ! (n mod 10)])"
  by pat_completeness auto
termination
  by (relation "measure (\<lambda>n. n)") auto

definition strconv_Itoa :: "int \<Rightarrow> string" where
  "strconv_Itoa i = (if i < 0 then CHR ''-'' # formatNat (nat (- i)) else formatNat (nat i))"

subsection \<open>Start\<close>

text \<open>
  What the runtime answers during one call of Start: the split of the image reference
  by \<open>docker.ParseRepositoryTag\<close>, the results of PullImage, CreateContainer and
  StartContainer, and the clock read by recordContainerID.
\<close>

record start_env =
  on_parse :: "string \<times> string"
  on_pull :: "error option"
  on_create :: "error + container"
  on_start :: "error option"
  on_record :: int

text \<open>The loop over the volumes (lines 95 to 101), on the list of binds built so far.\<close>

fun addBinds :: "Volume list \<Rightarrow> string list \<Rightarrow> string list" where
  "addBinds [] binds = binds"
| "addBinds (v # vs) binds =
     (let bind = HostPath v @ '':'' @ ContainerPath v;
          bind = (if ReadOnly v then bind @ '':ro'' else bind)
      in addBinds vs (binds @ [bind]))"

text \<open>The loop over the ports (lines 103 to 112).\<close>

fun addPorts :: "int list \<Rightarrow> CreateContainerOptions \<Rightarrow> CreateContainerOptions" where
  "addPorts [] opts = opts"
| "addPorts (p # ps) opts =
     (let dockerPort = strconv_Itoa p @ ''/tcp'' in
      addPorts ps
        (opts\<lparr>Config := (Config opts)
                 \<lparr>ExposedPorts := AList.update dockerPort () (ExposedPorts (Config opts))\<rparr>,
              HostConfig := (HostConfig opts)
                 \<lparr>PortBindings :=
                    AList.update dockerPort
                      [\<lparr>HostIP = ''0.0.0.0'', HostPort = strconv_Itoa p\<rparr>]
                      (PortBindings (HostConfig opts))\<rparr>\<rparr>))"

text \<open>The request Start builds (lines 75 to 112).\<close>

definition createOptions ::
  "dockerRunner \<Rightarrow> string \<Rightarrow> string list \<Rightarrow> Volume list \<Rightarrow> int list \<Rightarrow> string
     \<Rightarrow> CreateContainerOptions" where
  "createOptions r command args volumes ports containerName =
     (let containerName = strings_Replace containerName '':'' [];
          opts = \<lparr>Name = containerName,
                  Config = \<lparr>Image = image_ref r, Entrypoint = [command], Cmd = args,
                            Tty = True, User = user r, ExposedPorts = []\<rparr>,
                  HostConfig = \<lparr>Binds = [], VolumesFrom = [], PortBindings = [],
                                PublishAllPorts = True, AutoRemove = False\<rparr>\<rparr>;
          opts = (if volumesFrom r \<noteq> []
                  then opts\<lparr>HostConfig := (HostConfig opts)\<lparr>VolumesFrom := [volumesFrom r]\<rparr>\<rparr>
                  else opts\<lparr>HostConfig := (HostConfig opts)
                              \<lparr>Binds := addBinds volumes (Binds (HostConfig opts))\<rparr>\<rparr>)
      in addPorts ports opts)"

text \<open>
  Start returns the runner after the call, the pair (Process, error) as a sum, and the
  effects; or a panic.
\<close>

definition Start ::
  "dockerRunner \<Rightarrow> start_env \<Rightarrow> string \<Rightarrow> string list \<Rightarrow> Volume list \<Rightarrow> int list \<Rightarrow> string
     \<Rightarrow> panic + (dockerRunner \<times> (error + dockerContainer) \<times> effect list)" where
  "Start r env command args volumes ports containerName =
     (let r = r\<lparr>gcOnce := True\<rparr>;
          (repo, tag) = on_parse env;
          eff = [Debugf ''Pulling image %s:%s'' [repo, tag], PullImage (repo, tag)]
      in case on_pull env of
           Some err \<Rightarrow> Inr (r, Inl (maskAny err), eff)
         | None \<Rightarrow>
             (let opts = createOptions r command args volumes ports containerName;
                  eff = eff @ [Debugf ''Creating container %s'' [Name opts], CreateContainer opts]
              in case on_create env of
                   Inl err \<Rightarrow> Inr (r, Inl (maskAny err), eff)
                 | Inr c \<Rightarrow>
                     (case recordContainerID r (ID c) (on_record env) of
                        Inl p \<Rightarrow> Inl p
                      | Inr r \<Rightarrow>
                          (let eff = eff @ [Debugf ''Starting container %s'' [Name opts],
                                            StartContainer (ID c) (HostConfig opts)]
                           in case on_start env of
                                Some err \<Rightarrow> Inr (r, Inl (maskAny err), eff)
                              | None \<Rightarrow>
                                  Inr (r, Inr \<lparr>container = c\<rparr>,
                                       eff @ [Debugf ''Started container %s'' [Name opts]])))))"

subsection \<open>Cleanup\<close>

text \<open>The loop of Cleanup over the identifiers of the map (lines 151 to 159).\<close>

fun Cleanup_loop :: "(string \<Rightarrow> error option) \<Rightarrow> string list \<Rightarrow> effect list" where
  "Cleanup_loop on_remove [] = []"
| "Cleanup_loop on_remove (i # ids) =
     [Infof ''Removing container %s'' [i], RemoveContainer i True] @
     (case on_remove i of
        None \<Rightarrow> []
      | Some err \<Rightarrow>
          if \<not> isNoSuchContainer err
          then [Warningf ''Failed to remove container %s: %#v'' i err] else []) @
     Cleanup_loop on_remove ids"

definition Cleanup ::
  "dockerRunner \<Rightarrow> (string \<Rightarrow> error option) \<Rightarrow> dockerRunner \<times> error option \<times> effect list" where
  "Cleanup r on_remove =
     (r\<lparr>containerIDs := None\<rparr>, None, Cleanup_loop on_remove (map fst (registry r)))"

text \<open>Cleanup of a container handle (lines 270 to 279); it holds the client and the
  container and nothing of the runner.\<close>

definition dockerContainer_Cleanup ::
  "dockerContainer \<Rightarrow> error option \<Rightarrow> error option \<times> effect list" where
  "dockerContainer_Cleanup p on_remove =
     (case on_remove of
        Some err \<Rightarrow> (Some (maskAny err), [RemoveContainer (ID (container p)) True])
      | None \<Rightarrow> (None, [RemoveContainer (ID (container p)) True]))"

subsection \<open>The collector\<close>

text \<open>
  What the runtime answers during one pass of the collector: the clock read by
  gatherCollectableContainerIDs and, for each identifier, the result of InspectContainer,
  the clock read by canGC and the result of RemoveContainer.
\<close>

record gc_env =
  on_gather :: int
  on_inspect :: "string \<Rightarrow> error + container"
  on_canGC :: "string \<Rightarrow> int"
  on_remove :: "string \<Rightarrow> error option"

definition canGC :: "dockerRunner \<Rightarrow> int \<Rightarrow> container \<Rightarrow> bool" where
  "canGC r now c =
     (let gcBoundary = now - gcDelay r in
      if StateString (State c) = ''dead'' \<or> StateString (State c) = ''exited''
      then (if FinishedAt (State c) < gcBoundary then True else False)
      else if StateString (State c) = ''created''
      then (if Created c < gcBoundary then True else False)
      else False)"

fun gather_loop :: "(string \<times> int) list \<Rightarrow> int \<Rightarrow> string list \<Rightarrow> string list" where
  "gather_loop [] gcBoundary result = result"
| "gather_loop ((i, ts) # m) gcBoundary result =
     gather_loop m gcBoundary (if ts < gcBoundary then result @ [i] else result)"

definition gatherCollectableContainerIDs :: "dockerRunner \<Rightarrow> int \<Rightarrow> string list" where
  "gatherCollectableContainerIDs r now =
     (let gcBoundary = now - gcDelay r in gather_loop (registry r) gcBoundary [])"

text \<open>The body of the loop over the candidates (lines 200 to 219).\<close>

definition gc_candidate :: "dockerRunner \<Rightarrow> gc_env \<Rightarrow> string \<Rightarrow> dockerRunner \<times> effect list" where
  "gc_candidate r env i =
     (case on_inspect env i of
        Inl err \<Rightarrow>
          if isNoSuchContainer err then (unrecordContainerID r i, [InspectContainer i])
          else (r, [InspectContainer i,
                    Warningf ''Failed to inspect container %s: %#v'' i err])
      | Inr c \<Rightarrow>
          if canGC r (on_canGC env i) c
          then (case on_remove env i of
                  Some err \<Rightarrow>
                    (r, [InspectContainer i, Infof ''Removing old container %s'' [i],
                         RemoveContainer i False,
                         Warningf ''Failed to remove container %s: %#v'' i err])
                | None \<Rightarrow>
                    (unrecordContainerID r i,
                     [InspectContainer i, Infof ''Removing old container %s'' [i],
                      RemoveContainer i False]))
          else (r, [InspectContainer i]))"

fun gc_loop :: "dockerRunner \<Rightarrow> gc_env \<Rightarrow> string list \<Rightarrow> dockerRunner \<times> effect list" where
  "gc_loop r env [] = (r, [])"
| "gc_loop r env (i # ids) =
     (let (r1, eff1) = gc_candidate r env i;
          (r2, eff2) = gc_loop r1 env ids
      in (r2, eff1 @ eff2))"

text \<open>
  One turn of the endless loop of \<open>gc\<close> (lines 198 to 220); \<open>gc\<close> sleeps a minute
  between two turns and never returns.
\<close>

definition gc_pass :: "dockerRunner \<Rightarrow> gc_env \<Rightarrow> dockerRunner \<times> effect list" where
  "gc_pass r env = gc_loop r env (gatherCollectableContainerIDs r (on_gather env))"

subsection \<open>Sequences of operations\<close>

text \<open>
  The operations on one runner, each with the answers of the runtime. A pass of the
  collector happens only once Start has launched it.
\<close>

datatype event =
    EvStart start_env string "string list" "Volume list" "int list" string
  | EvCleanup "string \<Rightarrow> error option"
  | EvCollect gc_env
  | EvHandleCleanup dockerContainer "error option"

fun step :: "dockerRunner \<Rightarrow> event \<Rightarrow> panic + dockerRunner" where
  "step r (EvStart env command args volumes ports containerName) =
     (case Start r env command args volumes ports containerName of
        Inl p \<Rightarrow> Inl p
      | Inr (r', res, eff) \<Rightarrow> Inr r')"
| "step r (EvCleanup on_rm) = Inr (fst (Cleanup r on_rm))"
| "step r (EvCollect env) = (if gcOnce r then Inr (fst (gc_pass r env)) else Inr r)"
| "step r (EvHandleCleanup p on_rm) = Inr r"

fun run :: "dockerRunner \<Rightarrow> event list \<Rightarrow> panic + dockerRunner" where
  "run r [] = Inr r"
| "run r (ev # evs) = (case step r ev of Inl p \<Rightarrow> Inl p | Inr r' \<Rightarrow> run r' evs)"

subsection \<open>Reading effects, and the words of the specification\<close>

text \<open>The requests for the creation and for the start of a container among the effects.\<close>

definition creation_requests :: "effect list \<Rightarrow> CreateContainerOptions list" where
  "creation_requests eff = concat (map (\<lambda>e. case e of CreateContainer opts \<Rightarrow> [opts] | _ \<Rightarrow> []) eff)"

definition start_requests :: "effect list \<Rightarrow> string list" where
  "start_requests eff = concat (map (\<lambda>e. case e of StartContainer i h \<Rightarrow> [i] | _ \<Rightarrow> []) eff)"

text \<open>The bind string of a volume, and the docker port of a port number.\<close>

definition bindString :: "Volume \<Rightarrow> string" where
  "bindString v = HostPath v @ '':'' @ ContainerPath v @ (if ReadOnly v then '':ro'' else [])"

definition portKey :: "int \<Rightarrow> string" where
  "portKey p = strconv_Itoa p @ ''/tcp''"

text \<open>The identifiers inspected, the removals requested (with the force flag) and the
  warnings logged (format, identifier, error) among the effects.\<close>

definition inspections :: "effect list \<Rightarrow> string list" where
  "inspections eff = concat (map (\<lambda>e. case e of InspectContainer i \<Rightarrow> [i] | _ \<Rightarrow> []) eff)"

definition removals :: "effect list \<Rightarrow> (string \<times> bool) list" where
  "removals eff = concat (map (\<lambda>e. case e of RemoveContainer i f \<Rightarrow> [(i, f)] | _ \<Rightarrow> []) eff)"

definition warnings :: "effect list \<Rightarrow> (string \<times> string \<times> error) list" where
  "warnings eff = concat (map (\<lambda>e. case e of Warningf f i err \<Rightarrow> [(f, i, err)] | _ \<Rightarrow> []) eff)"

text \<open>
  What one pass of the collector unregisters, in the words of the specification: a
  candidate whose inspection reports that the container no longer exists, or one that is
  eligible and whose removal succeeds.
\<close>

definition removable :: "dockerRunner \<Rightarrow> gc_env \<Rightarrow> string \<Rightarrow> bool" where
  "removable r env i =
     (case on_inspect env i of
        Inl err \<Rightarrow> isNoSuchContainer err
      | Inr c \<Rightarrow> canGC r (on_canGC env i) c \<and> on_remove env i = None)"

text \<open>
  A runner and a pass of the collector to evaluate on: three containers, of which a and b
  were recorded at 0 and c at 1000, a delay of 600, a pass at 700; the inspection of a
  reports no such container (wrapped by errgo), any other inspection times out.
\<close>

definition demo_runner :: dockerRunner where
  "demo_runner =
     \<lparr>image_ref = ''arangodb/arangodb'', user = [], volumesFrom = [],
      containerIDs = Some [(''a'', 0), (''b'', 0), (''c'', 1000)], gcOnce = True, gcDelay = 600\<rparr>"

definition demo_gc_env :: gc_env where
  "demo_gc_env =
     \<lparr>on_gather = 700,
      on_inspect = (\<lambda>i. if i = ''a'' then Inl (maskAny (NoSuchContainer ''a''))
                         else Inl (OtherError ''i/o timeout'')),
      on_canGC = (\<lambda>i. 701),
      on_remove = (\<lambda>i. None)\<rparr>"

text \<open>
  The registry along a sequence of operations, in the words of the specification. An
  operation registers the identifier of the container whose creation succeeded in it; it
  unregisters everything when it is Cleanup, and what the pass unregisters when it is a
  pass of the collector. An identifier is live after a sequence when some Start of the
  sequence created it and no later operation unregistered it.
\<close>

fun created_by :: "event \<Rightarrow> string set" where
  "created_by (EvStart env command args volumes ports containerName) =
     (case on_pull env of
        Some err \<Rightarrow> {}
      | None \<Rightarrow> (case on_create env of Inl err \<Rightarrow> {} | Inr c \<Rightarrow> {ID c}))"
| "created_by (EvCleanup on_rm) = {}"
| "created_by (EvCollect env) = {}"
| "created_by (EvHandleCleanup p on_rm) = {}"

fun removed_by :: "dockerRunner \<Rightarrow> event \<Rightarrow> string set" where
  "removed_by r (EvStart env command args volumes ports containerName) = {}"
| "removed_by r (EvCleanup on_rm) = registered r"
| "removed_by r (EvCollect env) =
     (if gcOnce r
      then {i \<in> registered r.
              (\<exists>(k, ts) \<in> set (registry r). k = i \<and> ts < on_gather env - gcDelay r) \<and>
              removable r env i}
      else {})"
| "removed_by r (EvHandleCleanup p on_rm) = {}"

fun removed_later :: "dockerRunner \<Rightarrow> event list \<Rightarrow> string \<Rightarrow> bool" where
  "removed_later r [] i = False"
| "removed_later r (ev # evs) i =
     (i \<in> removed_by r ev \<or>
      (case step r ev of Inl p \<Rightarrow> False | Inr r' \<Rightarrow> removed_later r' evs i))"

fun live :: "dockerRunner \<Rightarrow> event list \<Rightarrow> string set" where
  "live r [] = {}"
| "live r (ev # evs) =
     (case step r ev of
        Inl p \<Rightarrow> {}
      | Inr r' \<Rightarrow> {i \<in> created_by ev. \<not> removed_later r' evs i} \<union> live r' evs)"

text \<open>
  A sequence to evaluate on: c1 is created and started; the start of c2 fails; the handle
  of c1 removes it; a pass of the collector at 700 is told that c1 no longer exists and
  fails to remove c2.
\<close>

definition demo_container :: "string \<Rightarrow> container" where
  "demo_container i = \<lparr>ID = i, Created = 5, State = \<lparr>StateString = ''created'', FinishedAt = 0\<rparr>\<rparr>"

definition demo_start_env :: "string \<Rightarrow> error option \<Rightarrow> int \<Rightarrow> start_env" where
  "demo_start_env i start_result now =
     \<lparr>on_parse = (''arangodb/arangodb'', []), on_pull = None,
      on_create = Inr (demo_container i), on_start = start_result, on_record = now\<rparr>"

definition demo_events :: "event list" where
  "demo_events =
     [EvStart (demo_start_env ''c1'' None 0) ''arangod'' [] [] [8529] ''node1'',
      EvStart (demo_start_env ''c2'' (Some (OtherError ''port is already allocated'')) 10)
        ''arangod'' [] [] [8529] ''node2'',
      EvHandleCleanup \<lparr>container = demo_container ''c1''\<rparr> None,
      EvCollect
        \<lparr>on_gather = 700,
         on_inspect = (\<lambda>i. if i = ''c1'' then Inl (NoSuchContainer ''c1'')
                            else Inr (demo_container i)),
         on_canGC = (\<lambda>i. 700),
         on_remove = (\<lambda>i. Some (OtherError ''device busy''))\<rparr>]"

section \<open>Theorems\<close>

text \<open>
  C1 (as amended). GetContainerDir returns the host directory unchanged whenever a
  volumes-from container is configured, and the fixed path /data, whatever the host
  directory, when none is configured.
\<close>

theorem GetContainerDir_cases:
  "(volumesFrom r \<noteq> [] \<longrightarrow> GetContainerDir r hostDir = hostDir) \<and>
   (volumesFrom r = [] \<longrightarrow> GetContainerDir r hostDir = ''/data'')"
  by (simp add: GetContainerDir_def)

theorem GetContainerDir_cases_witness:
  "GetContainerDir (NewDockerRunner ''arangodb/arangodb'' [] ''adb1'' 600) ''/data/db1'' = ''/data/db1'' \<and>
   GetContainerDir (NewDockerRunner ''arangodb/arangodb'' [] [] 600) ''/home/db1'' = ''/data''"
  using GetContainerDir_cases [of "NewDockerRunner ''arangodb/arangodb'' [] ''adb1'' 600" "''/data/db1''"]
    GetContainerDir_cases [of "NewDockerRunner ''arangodb/arangodb'' [] [] 600" "''/home/db1''"]
  by (simp add: NewDockerRunner_def)

text \<open>
  C1 (as stated) fails: with the volumes-from container adb1 configured, the result for
  /home/db1 is /home/db1 and not the fixed path /data.
\<close>

theorem GetContainerDir_counterexample:
  "GetContainerDir (NewDockerRunner ''arangodb/arangodb'' [] ''adb1'' 600) ''/home/db1'' \<noteq> ''/data''"
  by (simp add: GetContainerDir_def NewDockerRunner_def)

subsection \<open>The request of Start\<close>

lemma strings_Replace_colon:
  "strings_Replace s '':'' [] = filter (\<lambda>c. c \<noteq> CHR '':'') s"
  by (induction s) auto

lemma addBinds_map: "addBinds vs binds = binds @ map bindString vs"
  by (induction vs arbitrary: binds) (auto simp: bindString_def Let_def)

lemma addPorts_Name [simp]: "Name (addPorts ps opts) = Name opts"
  by (induction ps arbitrary: opts) (auto simp: Let_def)

lemma addPorts_Binds [simp]: "Binds (HostConfig (addPorts ps opts)) = Binds (HostConfig opts)"
  by (induction ps arbitrary: opts) (auto simp: Let_def)

lemma addPorts_VolumesFrom [simp]:
  "VolumesFrom (HostConfig (addPorts ps opts)) = VolumesFrom (HostConfig opts)"
  by (induction ps arbitrary: opts) (auto simp: Let_def)

lemma addPorts_exposed_keys:
  "fst ` set (ExposedPorts (Config (addPorts ps opts))) =
   fst ` set (ExposedPorts (Config opts)) \<union> portKey ` set ps"
  by (induction ps arbitrary: opts) (auto simp: Let_def dom_update portKey_def)

lemma addPorts_exposed_distinct:
  "distinct (map fst (ExposedPorts (Config opts))) \<Longrightarrow>
   distinct (map fst (ExposedPorts (Config (addPorts ps opts))))"
  by (induction ps arbitrary: opts) (auto simp: Let_def distinct_update)

lemma addPorts_binding_keys:
  "fst ` set (PortBindings (HostConfig (addPorts ps opts))) =
   fst ` set (PortBindings (HostConfig opts)) \<union> portKey ` set ps"
  by (induction ps arbitrary: opts) (auto simp: Let_def dom_update portKey_def)

lemma addPorts_binding_distinct:
  "distinct (map fst (PortBindings (HostConfig opts))) \<Longrightarrow>
   distinct (map fst (PortBindings (HostConfig (addPorts ps opts))))"
  by (induction ps arbitrary: opts) (auto simp: Let_def distinct_update)

lemma addPorts_binding_other:
  "k \<notin> portKey ` set ps \<Longrightarrow>
   map_of (PortBindings (HostConfig (addPorts ps opts))) k = map_of (PortBindings (HostConfig opts)) k"
  by (induction ps arbitrary: opts) (auto simp: Let_def update_conv' portKey_def)

lemma addPorts_binding_value:
  "p \<in> set ps \<Longrightarrow>
   map_of (PortBindings (HostConfig (addPorts ps opts))) (portKey p) =
     Some [\<lparr>HostIP = ''0.0.0.0'', HostPort = strconv_Itoa p\<rparr>]"
proof (induction ps arbitrary: opts p)
  case Nil
  then show ?case by simp
next
  case (Cons q ps)
  show ?case
  proof (cases "p \<in> set ps")
    case True
    then show ?thesis using Cons.IH by (simp add: Let_def)
  next
    case False
    then have pq: "p = q" using Cons.prems by simp
    show ?thesis
    proof (cases "portKey p \<in> portKey ` set ps")
      case True
      then obtain p' where p': "p' \<in> set ps" "portKey p' = portKey p" by auto
      then have "strconv_Itoa p' = strconv_Itoa p" by (simp add: portKey_def)
      then show ?thesis using Cons.IH [OF p'(1)] p'(2) by (simp add: Let_def)
    next
      case False
      then show ?thesis using pq
        by (simp add: Let_def addPorts_binding_other update_conv') (simp add: portKey_def)
    qed
  qed
qed


lemma createOptions_gcOnce [simp]:
  "createOptions (r\<lparr>gcOnce := b\<rparr>) command args volumes ports n =
   createOptions r command args volumes ports n"
  by (simp add: createOptions_def Let_def)

lemma creation_requests_simps [simp]:
  "creation_requests [] = []"
  "creation_requests (CreateContainer opts # eff) = opts # creation_requests eff"
  "creation_requests (PullImage x # eff) = creation_requests eff"
  "creation_requests (StartContainer i h # eff) = creation_requests eff"
  "creation_requests (InspectContainer i # eff) = creation_requests eff"
  "creation_requests (RemoveContainer i f # eff) = creation_requests eff"
  "creation_requests (Debugf s a # eff) = creation_requests eff"
  "creation_requests (Infof s a # eff) = creation_requests eff"
  "creation_requests (Warningf s i e # eff) = creation_requests eff"
  by (simp_all add: creation_requests_def)

lemma start_requests_simps [simp]:
  "start_requests [] = []"
  "start_requests (StartContainer i h # eff) = i # start_requests eff"
  "start_requests (PullImage x # eff) = start_requests eff"
  "start_requests (CreateContainer opts # eff) = start_requests eff"
  "start_requests (InspectContainer i # eff) = start_requests eff"
  "start_requests (RemoveContainer i f # eff) = start_requests eff"
  "start_requests (Debugf s a # eff) = start_requests eff"
  "start_requests (Infof s a # eff) = start_requests eff"
  "start_requests (Warningf s i e # eff) = start_requests eff"
  by (simp_all add: start_requests_def)

lemma Start_pull_fails:
  "on_pull env = Some e \<Longrightarrow>
   Start r env command args volumes ports n =
     Inr (r\<lparr>gcOnce := True\<rparr>, Inl (maskAny e),
          [Debugf ''Pulling image %s:%s'' [fst (on_parse env), snd (on_parse env)],
           PullImage (on_parse env)])"
  by (simp add: Start_def Let_def split: prod.splits)

lemma Start_create_fails:
  "on_pull env = None \<Longrightarrow> on_create env = Inl e \<Longrightarrow>
   Start r env command args volumes ports n =
     Inr (r\<lparr>gcOnce := True\<rparr>, Inl (maskAny e),
          [Debugf ''Pulling image %s:%s'' [fst (on_parse env), snd (on_parse env)],
           PullImage (on_parse env),
           Debugf ''Creating container %s'' [Name (createOptions r command args volumes ports n)],
           CreateContainer (createOptions r command args volumes ports n)])"
  by (simp add: Start_def Let_def split: prod.splits)

lemma Start_nil_map:
  "on_pull env = None \<Longrightarrow> on_create env = Inr c \<Longrightarrow> containerIDs r = None \<Longrightarrow>
   Start r env command args volumes ports n = Inl AssignmentToNilMap"
  by (simp add: Start_def Let_def recordContainerID_def split: prod.splits)

lemma Start_created:
  "on_pull env = None \<Longrightarrow> on_create env = Inr c \<Longrightarrow> containerIDs r = Some m \<Longrightarrow>
   Start r env command args volumes ports n =
     Inr (r\<lparr>gcOnce := True, containerIDs := Some (AList.update (ID c) (on_record env) m)\<rparr>,
          (case on_start env of Some err \<Rightarrow> Inl (maskAny err) | None \<Rightarrow> Inr \<lparr>container = c\<rparr>),
          [Debugf ''Pulling image %s:%s'' [fst (on_parse env), snd (on_parse env)],
           PullImage (on_parse env),
           Debugf ''Creating container %s'' [Name (createOptions r command args volumes ports n)],
           CreateContainer (createOptions r command args volumes ports n),
           Debugf ''Starting container %s'' [Name (createOptions r command args volumes ports n)],
           StartContainer (ID c) (HostConfig (createOptions r command args volumes ports n))] @
          (case on_start env of Some err \<Rightarrow> []
           | None \<Rightarrow> [Debugf ''Started container %s'' [Name (createOptions r command args volumes ports n)]]))"
  by (simp add: Start_def Let_def recordContainerID_def split: prod.splits option.splits)

text \<open>
  C8. The request Start builds has the supplied name with every colon taken out; its
  exposed ports and its port bindings have one entry for each requested port \<open>p\<close>, under
  the key \<open>p/tcp\<close>, and the binding is host address 0.0.0.0 with the same port number;
  with a volumes-from container configured only that reference is attached and there is
  no bind, otherwise there is one bind \<open>hostPath:containerPath\<close> for each volume, in
  order, ending in \<open>:ro\<close> exactly for the read-only ones. When the pull succeeds, this
  request is the one request for a creation that Start sends.
\<close>

theorem Start_request:
  "(let opts = createOptions r command args volumes ports containerName in
    Name opts = filter (\<lambda>c. c \<noteq> CHR '':'') containerName \<and>
    fst ` set (ExposedPorts (Config opts)) = portKey ` set ports \<and>
    distinct (map fst (ExposedPorts (Config opts))) \<and>
    fst ` set (PortBindings (HostConfig opts)) = portKey ` set ports \<and>
    distinct (map fst (PortBindings (HostConfig opts))) \<and>
    (\<forall>p. p \<in> set ports \<longrightarrow>
       map_of (PortBindings (HostConfig opts)) (portKey p) =
         Some [\<lparr>HostIP = ''0.0.0.0'', HostPort = strconv_Itoa p\<rparr>]) \<and>
    (volumesFrom r \<noteq> [] \<longrightarrow>
       VolumesFrom (HostConfig opts) = [volumesFrom r] \<and> Binds (HostConfig opts) = []) \<and>
    (volumesFrom r = [] \<longrightarrow>
       VolumesFrom (HostConfig opts) = [] \<and> Binds (HostConfig opts) = map bindString volumes) \<and>
    (on_pull env = None \<longrightarrow>
       (case Start r env command args volumes ports containerName of
          Inl p \<Rightarrow> containerIDs r = None
        | Inr (r', res, eff) \<Rightarrow> creation_requests eff = [opts])))"
proof -
  define opts where "opts = createOptions r command args volumes ports containerName"
  have name: "Name opts = filter (\<lambda>c. c \<noteq> CHR '':'') containerName"
    by (simp add: opts_def createOptions_def Let_def strings_Replace_colon)
  have exposed: "fst ` set (ExposedPorts (Config opts)) = portKey ` set ports"
    by (simp add: opts_def createOptions_def Let_def addPorts_exposed_keys)
  have exposed_d: "distinct (map fst (ExposedPorts (Config opts)))"
    by (simp add: opts_def createOptions_def Let_def addPorts_exposed_distinct)
  have bound: "fst ` set (PortBindings (HostConfig opts)) = portKey ` set ports"
    by (simp add: opts_def createOptions_def Let_def addPorts_binding_keys)
  have bound_d: "distinct (map fst (PortBindings (HostConfig opts)))"
    by (simp add: opts_def createOptions_def Let_def addPorts_binding_distinct)
  have binding: "\<forall>p. p \<in> set ports \<longrightarrow>
       map_of (PortBindings (HostConfig opts)) (portKey p) =
         Some [\<lparr>HostIP = ''0.0.0.0'', HostPort = strconv_Itoa p\<rparr>]"
    by (simp add: opts_def createOptions_def Let_def addPorts_binding_value)
  have vf: "volumesFrom r \<noteq> [] \<longrightarrow>
       VolumesFrom (HostConfig opts) = [volumesFrom r] \<and> Binds (HostConfig opts) = []"
    by (simp add: opts_def createOptions_def Let_def)
  have binds: "volumesFrom r = [] \<longrightarrow>
       VolumesFrom (HostConfig opts) = [] \<and> Binds (HostConfig opts) = map bindString volumes"
    by (simp add: opts_def createOptions_def Let_def addBinds_map)
  have sent: "on_pull env = None \<longrightarrow>
       (case Start r env command args volumes ports containerName of
          Inl p \<Rightarrow> containerIDs r = None
        | Inr (r', res, eff) \<Rightarrow> creation_requests eff = [opts])"
  proof
    assume pull: "on_pull env = None"
    show "case Start r env command args volumes ports containerName of
          Inl p \<Rightarrow> containerIDs r = None
        | Inr (r', res, eff) \<Rightarrow> creation_requests eff = [opts]"
    proof (cases "on_create env")
      case (Inl e)
      then show ?thesis using pull by (simp add: Start_create_fails opts_def)
    next
      case (Inr c)
      show ?thesis
      proof (cases "containerIDs r")
        case None
        then show ?thesis using pull Inr by (simp add: Start_nil_map)
      next
        case (Some m)
        then show ?thesis using pull Inr
          by (simp add: Start_created opts_def split: option.splits)
      qed
    qed
  qed
  show ?thesis
    unfolding Let_def opts_def [symmetric]
    using name exposed exposed_d bound bound_d binding vf binds sent by blast
qed

text \<open>The scenario of the specification: name node:1, port 8529, one writable volume.\<close>

theorem Start_request_witness:
  "(let opts = createOptions (NewDockerRunner ''arangodb/arangodb'' [] [] 600) ''arangod''
        [''--server.endpoint=tcp://0.0.0.0:8529'']
        [\<lparr>HostPath = ''/host/data'', ContainerPath = ''/data'', ReadOnly = False\<rparr>] [8529] ''node:1''
    in Name opts = ''node1'' \<and>
       fst ` set (ExposedPorts (Config opts)) = {''8529/tcp''} \<and>
       map_of (PortBindings (HostConfig opts)) ''8529/tcp'' =
         Some [\<lparr>HostIP = ''0.0.0.0'', HostPort = ''8529''\<rparr>] \<and>
       VolumesFrom (HostConfig opts) = [] \<and>
       Binds (HostConfig opts) = [''/host/data:/data''])"
  using Start_request [of "NewDockerRunner ''arangodb/arangodb'' [] [] 600" "''arangod''"
      "[''--server.endpoint=tcp://0.0.0.0:8529'']"
      "[\<lparr>HostPath = ''/host/data'', ContainerPath = ''/data'', ReadOnly = False\<rparr>]" "[8529]" "''node:1''"
      "\<lparr>on_parse = (''arangodb/arangodb'', []), on_pull = Some (OtherError ''x''), on_create = Inl (OtherError ''x''), on_start = None, on_record = 0\<rparr>"]
  by (simp add: Let_def portKey_def strconv_Itoa_def bindString_def NewDockerRunner_def)


subsection \<open>Failures of Start\<close>

lemma Cause_maskAny: "Cause (maskAny e) = Cause e"
  by (simp add: maskAny_def)

lemma registered_update:
  "containerIDs r = Some m \<Longrightarrow>
   registered (r\<lparr>gcOnce := b, containerIDs := Some (AList.update i t m)\<rparr>) = insert i (registered r)"
  by (simp add: registered_def registry_def dom_update)

lemma registry_gcOnce [simp]: "registry (r\<lparr>gcOnce := b\<rparr>) = registry r"
  by (simp add: registry_def)

lemma registered_gcOnce [simp]: "registered (r\<lparr>gcOnce := b\<rparr>) = registered r"
  by (simp add: registered_def)

text \<open>
  C3. A failure of the pull, of the creation or of the start comes back to the caller
  (wrapped by maskAny, with the same cause) and ends the call: after a failed pull no
  creation is requested, after a failed creation no start is requested. After a failed
  pull or creation the map of identifiers is as before; after a failed start the
  identifier of the created container is registered, with the time of its recording.
\<close>

theorem Start_failures:
  "(on_pull env = Some e \<longrightarrow>
      (case Start r env command args volumes ports containerName of
         Inl p \<Rightarrow> False
       | Inr (r', res, eff) \<Rightarrow>
           res = Inl (maskAny e) \<and> Cause (maskAny e) = Cause e \<and>
           containerIDs r' = containerIDs r \<and>
           creation_requests eff = [] \<and> start_requests eff = [])) \<and>
   (on_pull env = None \<and> on_create env = Inl e \<longrightarrow>
      (case Start r env command args volumes ports containerName of
         Inl p \<Rightarrow> False
       | Inr (r', res, eff) \<Rightarrow>
           res = Inl (maskAny e) \<and> Cause (maskAny e) = Cause e \<and>
           containerIDs r' = containerIDs r \<and> start_requests eff = [])) \<and>
   (on_pull env = None \<and> on_create env = Inr c \<and> on_start env = Some e \<and>
    containerIDs r \<noteq> None \<longrightarrow>
      (case Start r env command args volumes ports containerName of
         Inl p \<Rightarrow> False
       | Inr (r', res, eff) \<Rightarrow>
           res = Inl (maskAny e) \<and> Cause (maskAny e) = Cause e \<and>
           registered r' = insert (ID c) (registered r) \<and>
           map_of (registry r') (ID c) = Some (on_record env) \<and>
           start_requests eff = [ID c]))"
proof (intro conjI impI)
  assume "on_pull env = Some e"
  then show "case Start r env command args volumes ports containerName of
         Inl p \<Rightarrow> False
       | Inr (r', res, eff) \<Rightarrow>
           res = Inl (maskAny e) \<and> Cause (maskAny e) = Cause e \<and>
           containerIDs r' = containerIDs r \<and>
           creation_requests eff = [] \<and> start_requests eff = []"
    by (simp add: Start_pull_fails Cause_maskAny)
next
  assume "on_pull env = None \<and> on_create env = Inl e"
  then show "case Start r env command args volumes ports containerName of
         Inl p \<Rightarrow> False
       | Inr (r', res, eff) \<Rightarrow>
           res = Inl (maskAny e) \<and> Cause (maskAny e) = Cause e \<and>
           containerIDs r' = containerIDs r \<and> start_requests eff = []"
    by (simp add: Start_create_fails Cause_maskAny)
next
  assume a: "on_pull env = None \<and> on_create env = Inr c \<and> on_start env = Some e \<and>
    containerIDs r \<noteq> None"
  then obtain m where m: "containerIDs r = Some m" by auto
  show "case Start r env command args volumes ports containerName of
         Inl p \<Rightarrow> False
       | Inr (r', res, eff) \<Rightarrow>
           res = Inl (maskAny e) \<and> Cause (maskAny e) = Cause e \<and>
           registered r' = insert (ID c) (registered r) \<and>
           map_of (registry r') (ID c) = Some (on_record env) \<and>
           start_requests eff = [ID c]"
    using a m
    by (simp add: Start_created Cause_maskAny registered_update)
       (simp add: registry_def update_conv')
qed

theorem Start_failures_witness:
  "(case Start (NewDockerRunner ''arangodb/arangodb'' [] [] 600)
      \<lparr>on_parse = (''arangodb/arangodb'', []), on_pull = None,
       on_create = Inr \<lparr>ID = ''c1'', Created = 100, State = \<lparr>StateString = ''created'', FinishedAt = 0\<rparr>\<rparr>,
       on_start = Some (OtherError ''port is already allocated''), on_record = 100\<rparr>
      ''arangod'' [] [] [8529] ''node:1'' of
     Inl p \<Rightarrow> False
   | Inr (r', res, eff) \<Rightarrow>
       res = Inl (maskAny (OtherError ''port is already allocated'')) \<and>
       registered r' = {''c1''} \<and> start_requests eff = [''c1'']) \<and>
   (case Start (NewDockerRunner ''arangodb/arangodb'' [] [] 600)
      \<lparr>on_parse = (''arangodb/arangodb'', []), on_pull = Some (OtherError ''no route to host''),
       on_create = Inl (OtherError ''unused''), on_start = None, on_record = 100\<rparr>
      ''arangod'' [] [] [8529] ''node:1'' of
     Inl p \<Rightarrow> False
   | Inr (r', res, eff) \<Rightarrow>
       res = Inl (maskAny (OtherError ''no route to host'')) \<and> containerIDs r' = Some [] \<and>
       creation_requests eff = []) \<and>
   (case Start (NewDockerRunner ''arangodb/arangodb'' [] [] 600)
      \<lparr>on_parse = (''arangodb/arangodb'', []), on_pull = None,
       on_create = Inl (OtherError ''name is already in use''), on_start = None, on_record = 100\<rparr>
      ''arangod'' [] [] [8529] ''node:1'' of
     Inl p \<Rightarrow> False
   | Inr (r', res, eff) \<Rightarrow>
       res = Inl (maskAny (OtherError ''name is already in use'')) \<and> containerIDs r' = Some [] \<and>
       start_requests eff = [])"
  using
    Start_failures [of
      "\<lparr>on_parse = (''arangodb/arangodb'', []), on_pull = None,
       on_create = Inr \<lparr>ID = ''c1'', Created = 100, State = \<lparr>StateString = ''created'', FinishedAt = 0\<rparr>\<rparr>,
       on_start = Some (OtherError ''port is already allocated''), on_record = 100\<rparr>"
      "OtherError ''port is already allocated''"
      "NewDockerRunner ''arangodb/arangodb'' [] [] 600" "''arangod''" "[]" "[]" "[8529]" "''node:1''"
      "\<lparr>ID = ''c1'', Created = 100, State = \<lparr>StateString = ''created'', FinishedAt = 0\<rparr>\<rparr>"]
    Start_failures [of
      "\<lparr>on_parse = (''arangodb/arangodb'', []), on_pull = Some (OtherError ''no route to host''),
       on_create = Inl (OtherError ''unused''), on_start = None, on_record = 100\<rparr>"
      "OtherError ''no route to host''"
      "NewDockerRunner ''arangodb/arangodb'' [] [] 600" "''arangod''" "[]" "[]" "[8529]" "''node:1''"]
    Start_failures [of
      "\<lparr>on_parse = (''arangodb/arangodb'', []), on_pull = None,
       on_create = Inl (OtherError ''name is already in use''), on_start = None, on_record = 100\<rparr>"
      "OtherError ''name is already in use''"
      "NewDockerRunner ''arangodb/arangodb'' [] [] 600" "''arangod''" "[]" "[]" "[8529]" "''node:1''"]
  by (simp add: NewDockerRunner_def registered_def registry_def split: sum.splits prod.splits)

subsection \<open>The collector and Cleanup\<close>

lemma inspections_append [simp]: "inspections (xs @ ys) = inspections xs @ inspections ys"
  by (simp add: inspections_def)

lemma removals_append [simp]: "removals (xs @ ys) = removals xs @ removals ys"
  by (simp add: removals_def)

lemma warnings_append [simp]: "warnings (xs @ ys) = warnings xs @ warnings ys"
  by (simp add: warnings_def)

lemma removals_simps [simp]:
  "removals [] = []"
  "removals (RemoveContainer i f # eff) = (i, f) # removals eff"
  "removals (PullImage x # eff) = removals eff"
  "removals (CreateContainer opts # eff) = removals eff"
  "removals (StartContainer i h # eff) = removals eff"
  "removals (InspectContainer i # eff) = removals eff"
  "removals (Debugf s a # eff) = removals eff"
  "removals (Infof s a # eff) = removals eff"
  "removals (Warningf s i e # eff) = removals eff"
  by (simp_all add: removals_def)

lemma warnings_simps [simp]:
  "warnings [] = []"
  "warnings (Warningf s i e # eff) = (s, i, e) # warnings eff"
  "warnings (PullImage x # eff) = warnings eff"
  "warnings (CreateContainer opts # eff) = warnings eff"
  "warnings (StartContainer i h # eff) = warnings eff"
  "warnings (InspectContainer i # eff) = warnings eff"
  "warnings (RemoveContainer i f # eff) = warnings eff"
  "warnings (Debugf s a # eff) = warnings eff"
  "warnings (Infof s a # eff) = warnings eff"
  by (simp_all add: warnings_def)

lemma inspections_simps [simp]:
  "inspections [] = []"
  "inspections (InspectContainer i # eff) = i # inspections eff"
  "inspections (PullImage x # eff) = inspections eff"
  "inspections (CreateContainer opts # eff) = inspections eff"
  "inspections (StartContainer i h # eff) = inspections eff"
  "inspections (RemoveContainer i f # eff) = inspections eff"
  "inspections (Debugf s a # eff) = inspections eff"
  "inspections (Infof s a # eff) = inspections eff"
  "inspections (Warningf s i e # eff) = inspections eff"
  by (simp_all add: inspections_def)

lemma registry_unrecord: "registry (unrecordContainerID r i) = AList.delete i (registry r)"
  by (simp add: unrecordContainerID_def registry_def split: option.splits)

lemma gcDelay_unrecord [simp]: "gcDelay (unrecordContainerID r i) = gcDelay r"
  by (simp add: unrecordContainerID_def split: option.splits)

lemma gcOnce_unrecord [simp]: "gcOnce (unrecordContainerID r i) = gcOnce r"
  by (simp add: unrecordContainerID_def split: option.splits)

lemma nil_unrecord: "containerIDs r = None \<Longrightarrow> containerIDs (unrecordContainerID r i) = None"
  by (simp add: unrecordContainerID_def)

lemma canGC_gcDelay: "gcDelay r' = gcDelay r \<Longrightarrow> canGC r' now c = canGC r now c"
  by (simp add: canGC_def)

lemma removable_gcDelay: "gcDelay r' = gcDelay r \<Longrightarrow> removable r' env i = removable r env i"
  by (simp add: removable_def canGC_def split: sum.splits)

lemma gc_candidate_registry:
  "registry (fst (gc_candidate r env i)) =
     (if removable r env i then AList.delete i (registry r) else registry r)"
  by (simp add: gc_candidate_def removable_def registry_unrecord split: sum.splits option.splits)

lemma gc_candidate_gcDelay [simp]: "gcDelay (fst (gc_candidate r env i)) = gcDelay r"
  by (simp add: gc_candidate_def split: sum.splits option.splits)

lemma gc_candidate_gcOnce [simp]: "gcOnce (fst (gc_candidate r env i)) = gcOnce r"
  by (simp add: gc_candidate_def split: sum.splits option.splits)

lemma gc_candidate_nil:
  "containerIDs r = None \<Longrightarrow> containerIDs (fst (gc_candidate r env i)) = None"
  by (simp add: gc_candidate_def nil_unrecord split: sum.splits option.splits)

lemma gc_candidate_inspections [simp]: "inspections (snd (gc_candidate r env i)) = [i]"
  by (simp add: gc_candidate_def split: sum.splits option.splits)

lemma gc_candidate_removals:
  "removals (snd (gc_candidate r env i)) =
     (case on_inspect env i of
        Inl err \<Rightarrow> []
      | Inr c \<Rightarrow> if canGC r (on_canGC env i) c then [(i, False)] else [])"
  by (simp add: gc_candidate_def split: sum.splits option.splits)

lemma gc_candidate_warnings:
  "warnings (snd (gc_candidate r env i)) =
     (case on_inspect env i of
        Inl err \<Rightarrow>
          if isNoSuchContainer err then []
          else [(''Failed to inspect container %s: %#v'', i, err)]
      | Inr c \<Rightarrow>
          (case on_remove env i of
             Some err \<Rightarrow>
               if canGC r (on_canGC env i) c
               then [(''Failed to remove container %s: %#v'', i, err)] else []
           | None \<Rightarrow> []))"
  by (simp add: gc_candidate_def split: sum.splits option.splits)

lemma gc_loop_fst_Cons: "fst (gc_loop r env (i # ids)) = fst (gc_loop (fst (gc_candidate r env i)) env ids)"
  by (simp add: Let_def split: prod.splits)

lemma gc_loop_snd_Cons:
  "snd (gc_loop r env (i # ids)) =
     snd (gc_candidate r env i) @ snd (gc_loop (fst (gc_candidate r env i)) env ids)"
  by (simp add: Let_def split: prod.splits)

lemma gc_loop_gcDelay [simp]: "gcDelay (fst (gc_loop r env ids)) = gcDelay r"
  by (induction ids arbitrary: r) (simp_all add: gc_loop_fst_Cons del: gc_loop.simps(2))

lemma gc_loop_gcOnce [simp]: "gcOnce (fst (gc_loop r env ids)) = gcOnce r"
  by (induction ids arbitrary: r) (simp_all add: gc_loop_fst_Cons del: gc_loop.simps(2))

lemma gc_loop_nil:
  "containerIDs r = None \<Longrightarrow> containerIDs (fst (gc_loop r env ids)) = None"
  by (induction ids arbitrary: r) (simp_all add: gc_loop_fst_Cons gc_candidate_nil del: gc_loop.simps(2))

lemma gc_loop_registry:
  "registry (fst (gc_loop r env ids)) =
     filter (\<lambda>(k, ts). \<not> (k \<in> set ids \<and> removable r env k)) (registry r)"
proof (induction ids arbitrary: r)
  case Nil
  then show ?case by simp
next
  case (Cons i ids)
  have same: "removable (fst (gc_candidate r env i)) env = removable r env"
    by (rule ext) (rule removable_gcDelay, simp)
  have step: "registry (fst (gc_loop r env (i # ids))) =
      filter (\<lambda>(k, ts). \<not> (k \<in> set ids \<and> removable r env k))
        (if removable r env i then AList.delete i (registry r) else registry r)"
    by (simp only: gc_loop_fst_Cons Cons.IH same gc_candidate_registry)
  show ?case
  proof (cases "removable r env i")
    case True
    have "filter (\<lambda>(k, ts). \<not> (k \<in> set ids \<and> removable r env k)) (AList.delete i (registry r)) =
          filter (\<lambda>(k, ts). \<not> (k \<in> set (i # ids) \<and> removable r env k)) (registry r)"
      unfolding AList.delete_eq filter_filter
      by (rule filter_cong [OF refl]) (use True in auto)
    then show ?thesis using True by (simp only: step if_True)
  next
    case False
    have "filter (\<lambda>(k, ts). \<not> (k \<in> set ids \<and> removable r env k)) (registry r) =
          filter (\<lambda>(k, ts). \<not> (k \<in> set (i # ids) \<and> removable r env k)) (registry r)"
      by (rule filter_cong [OF refl]) (use False in auto)
    then show ?thesis using False by (simp only: step if_False)
  qed
qed

lemma gc_loop_inspections [simp]: "inspections (snd (gc_loop r env ids)) = ids"
  by (induction ids arbitrary: r)
     (simp_all add: gc_loop_snd_Cons del: gc_loop.simps(2))

lemma gather_loop_eq:
  "gather_loop m b result = result @ map fst (filter (\<lambda>(i, ts). ts < b) m)"
  by (induction m b result rule: gather_loop.induct) auto

lemma gather_eq:
  "gatherCollectableContainerIDs r now =
     map fst (filter (\<lambda>(i, ts). ts < now - gcDelay r) (registry r))"
  by (simp add: gatherCollectableContainerIDs_def Let_def gather_loop_eq)

lemma gc_candidate_effects_gcDelay:
  "gcDelay r' = gcDelay r \<Longrightarrow> snd (gc_candidate r' env i) = snd (gc_candidate r env i)"
  by (simp add: gc_candidate_def canGC_def split: sum.splits option.splits)

lemma gc_loop_effects:
  "snd (gc_loop r env ids) = concat (map (\<lambda>i. snd (gc_candidate r env i)) ids)"
proof (induction ids arbitrary: r)
  case Nil
  then show ?case by simp
next
  case (Cons i ids)
  have "snd (gc_loop (fst (gc_candidate r env i)) env ids) =
        concat (map (\<lambda>j. snd (gc_candidate r env j)) ids)"
    unfolding Cons.IH
    by (rule arg_cong [where f = concat], rule map_cong [OF refl])
       (rule gc_candidate_effects_gcDelay, simp)
  then show ?case by (simp only: gc_loop_snd_Cons list.map concat.simps)
qed

lemma removals_concat: "removals (concat xss) = concat (map removals xss)"
  by (induction xss) simp_all

lemma warnings_concat: "warnings (concat xss) = concat (map warnings xss)"
  by (induction xss) simp_all

lemma gc_candidate_warning_id:
  "(f, j, x) \<in> set (warnings (snd (gc_candidate r env i))) \<Longrightarrow> j = i"
  by (auto simp: gc_candidate_warnings split: sum.splits option.splits if_splits)

lemma gc_candidate_removal_id:
  "(j, b) \<in> set (removals (snd (gc_candidate r env i))) \<Longrightarrow> j = i"
  by (auto simp: gc_candidate_removals split: sum.splits if_splits)

lemma gc_loop_warnings:
  "((f, i, x) \<in> set (warnings (snd (gc_loop r env ids)))) =
   (i \<in> set ids \<and> (f, i, x) \<in> set (warnings (snd (gc_candidate r env i))))"
  unfolding gc_loop_effects warnings_concat
  by (auto dest: gc_candidate_warning_id)

lemma gc_loop_removals:
  "((i, b) \<in> set (removals (snd (gc_loop r env ids)))) =
   (i \<in> set ids \<and> (i, b) \<in> set (removals (snd (gc_candidate r env i))))"
  unfolding gc_loop_effects removals_concat
  by (auto dest: gc_candidate_removal_id)

lemma Cleanup_loop_removals:
  "removals (Cleanup_loop on_rm ids) = map (\<lambda>i. (i, True)) ids"
  by (induction ids) (simp_all split: option.splits)

lemma Cleanup_loop_warnings:
  "warnings (Cleanup_loop on_rm ids) =
     concat (map (\<lambda>i. case on_rm i of None \<Rightarrow> []
        | Some err \<Rightarrow> if \<not> isNoSuchContainer err
            then [(''Failed to remove container %s: %#v'', i, err)] else []) ids)"
  by (induction ids) (simp_all split: option.splits)

text \<open>
  C7. Cleanup returns no error, whatever the removals answer; it leaves the map of
  identifiers nil, so that nothing is registered; it requests the forced removal of
  exactly the registered identifiers; and it logs the warning "Failed to remove container"
  exactly for the identifiers whose removal fails with an error that is not a no such
  container error.
\<close>

theorem Cleanup_all:
  "(case Cleanup r on_rm of
      (r', err, eff) \<Rightarrow>
        err = None \<and> containerIDs r' = None \<and> registered r' = {} \<and>
        set (removals eff) = (\<lambda>i. (i, True)) ` registered r \<and>
        set (warnings eff) =
          {(f, i, e). f = ''Failed to remove container %s: %#v'' \<and> i \<in> registered r \<and>
                      on_rm i = Some e \<and> \<not> isNoSuchContainer e})"
proof -
  have w: "set (warnings (Cleanup_loop on_rm (map fst (registry r)))) =
          {(f, i, e). f = ''Failed to remove container %s: %#v'' \<and> i \<in> registered r \<and>
                      on_rm i = Some e \<and> \<not> isNoSuchContainer e}"
    unfolding Cleanup_loop_warnings registered_def
    by (auto split: option.splits if_splits)
  have rm: "set (removals (Cleanup_loop on_rm (map fst (registry r)))) =
            (\<lambda>i. (i, True)) ` registered r"
    unfolding Cleanup_loop_removals registered_def by (simp add: image_image)
  show ?thesis
    using w rm by (simp add: Cleanup_def registered_def registry_def)
qed

text \<open>
  C6. The candidates of a pass are exactly the identifiers of the registry entries whose
  recorded time is before now - gcDelay, and they are exactly what the pass inspects. In a
  registry with distinct keys no candidate is listed twice, and an entry recorded at
  now - gcDelay or later is not a candidate.
\<close>

theorem gather_candidates:
  "set (gatherCollectableContainerIDs r now) =
     {i. \<exists>ts. (i, ts) \<in> set (registry r) \<and> ts < now - gcDelay r} \<and>
   inspections (snd (gc_pass r env)) = gatherCollectableContainerIDs r (on_gather env) \<and>
   (distinct (map fst (registry r)) \<longrightarrow>
      distinct (gatherCollectableContainerIDs r now) \<and>
      (\<forall>i ts. (i, ts) \<in> set (registry r) \<and> now - gcDelay r \<le> ts \<longrightarrow>
          i \<notin> set (gatherCollectableContainerIDs r now)))"
proof (intro conjI impI allI)
  show "set (gatherCollectableContainerIDs r now) =
     {i. \<exists>ts. (i, ts) \<in> set (registry r) \<and> ts < now - gcDelay r}"
    unfolding gather_eq by force
  show "inspections (snd (gc_pass r env)) = gatherCollectableContainerIDs r (on_gather env)"
    by (simp add: gc_pass_def)
next
  assume d: "distinct (map fst (registry r))"
  then show "distinct (gatherCollectableContainerIDs r now)"
    unfolding gather_eq by (simp add: distinct_map_filter)
  fix i ts
  assume a: "(i, ts) \<in> set (registry r) \<and> now - gcDelay r \<le> ts"
  show "i \<notin> set (gatherCollectableContainerIDs r now)"
  proof
    assume "i \<in> set (gatherCollectableContainerIDs r now)"
    then obtain ts' where ts': "(i, ts') \<in> set (registry r)" "ts' < now - gcDelay r"
      unfolding gather_eq by auto
    from d a ts'(1) have "ts' = ts" by (meson eq_key_imp_eq_value)
    with a ts'(2) show False by simp
  qed
qed

text \<open>
  C4. canGC holds exactly for a container that is dead or exited and finished before
  now - gcDelay, or that is created and was created (as the runtime reports) before
  now - gcDelay; so never for one that is running, restarting or paused. After a
  successful inspection the pass requests the (unforced) removal exactly when canGC holds.
\<close>

theorem canGC_classification:
  "canGC r now c =
     ((StateString (State c) = ''dead'' \<or> StateString (State c) = ''exited'') \<and>
        FinishedAt (State c) < now - gcDelay r \<or>
      StateString (State c) = ''created'' \<and> Created c < now - gcDelay r) \<and>
   (StateString (State c) \<in> {''running'', ''restarting'', ''paused''} \<longrightarrow> \<not> canGC r now c) \<and>
   (on_inspect env i = Inr c \<longrightarrow>
      removals (snd (gc_candidate r env i)) =
        (if canGC r (on_canGC env i) c then [(i, False)] else []))"
  by (auto simp: canGC_def Let_def gc_candidate_removals)

text \<open>
  C5. In one pass of the collector every candidate is inspected, in turn, whatever the
  earlier inspections gave. A candidate whose inspection reports that the container no
  longer exists is unregistered, with no warning logged and no removal requested for it.
  A candidate whose inspection fails otherwise gets the warning "Failed to inspect
  container" with that error, keeps its entries in the registry, and no removal is
  requested for it.
\<close>

theorem gc_pass_inspection_failures:
  "(case gc_pass r env of
      (r', eff) \<Rightarrow>
        inspections eff = gatherCollectableContainerIDs r (on_gather env) \<and>
        (\<forall>i e. i \<in> set (gatherCollectableContainerIDs r (on_gather env)) \<and>
               on_inspect env i = Inl e \<and> isNoSuchContainer e \<longrightarrow>
               i \<notin> registered r' \<and>
               (\<forall>f x. (f, i, x) \<notin> set (warnings eff)) \<and>
               (\<forall>b. (i, b) \<notin> set (removals eff))) \<and>
        (\<forall>i e. i \<in> set (gatherCollectableContainerIDs r (on_gather env)) \<and>
               on_inspect env i = Inl e \<and> \<not> isNoSuchContainer e \<longrightarrow>
               (''Failed to inspect container %s: %#v'', i, e) \<in> set (warnings eff) \<and>
               (\<forall>ts. (i, ts) \<in> set (registry r) \<longrightarrow> (i, ts) \<in> set (registry r')) \<and>
               (\<forall>b. (i, b) \<notin> set (removals eff))))"
proof -
  define ids where "ids = gatherCollectableContainerIDs r (on_gather env)"
  define r' where "r' = fst (gc_loop r env ids)"
  define eff where "eff = snd (gc_loop r env ids)"
  have pass: "gc_pass r env = (r', eff)"
    by (simp add: gc_pass_def r'_def eff_def ids_def)
  have reg: "registry r' = filter (\<lambda>(k, ts). \<not> (k \<in> set ids \<and> removable r env k)) (registry r)"
    by (simp add: r'_def gc_loop_registry)
  have insp: "inspections eff = ids"
    by (simp add: eff_def)
  have gone: "i \<notin> registered r' \<and> (\<forall>f x. (f, i, x) \<notin> set (warnings eff)) \<and>
              (\<forall>b. (i, b) \<notin> set (removals eff))"
    if "i \<in> set ids" "on_inspect env i = Inl e" "isNoSuchContainer e" for i e
  proof -
    have "removable r env i" using that by (simp add: removable_def)
    then have "i \<notin> registered r'"
      using that(1) by (auto simp: registered_def reg)
    moreover have "\<forall>f x. (f, i, x) \<notin> set (warnings eff)"
      using that by (simp add: eff_def gc_loop_warnings gc_candidate_warnings)
    moreover have "\<forall>b. (i, b) \<notin> set (removals eff)"
      using that by (simp add: eff_def gc_loop_removals gc_candidate_removals)
    ultimately show ?thesis by blast
  qed
  have kept: "(''Failed to inspect container %s: %#v'', i, e) \<in> set (warnings eff) \<and>
              (\<forall>ts. (i, ts) \<in> set (registry r) \<longrightarrow> (i, ts) \<in> set (registry r')) \<and>
              (\<forall>b. (i, b) \<notin> set (removals eff))"
    if "i \<in> set ids" "on_inspect env i = Inl e" "\<not> isNoSuchContainer e" for i e
  proof -
    have "\<not> removable r env i" using that by (simp add: removable_def)
    then have "\<forall>ts. (i, ts) \<in> set (registry r) \<longrightarrow> (i, ts) \<in> set (registry r')"
      by (simp add: reg)
    moreover have "(''Failed to inspect container %s: %#v'', i, e) \<in> set (warnings eff)"
      using that by (simp add: eff_def gc_loop_warnings gc_candidate_warnings)
    moreover have "\<forall>b. (i, b) \<notin> set (removals eff)"
      using that by (simp add: eff_def gc_loop_removals gc_candidate_removals)
    ultimately show ?thesis by blast
  qed
  show ?thesis
    unfolding pass prod.case ids_def [symmetric]
    using insp gone kept by blast
qed

theorem gc_pass_inspection_failures_witness:
  "(case gc_pass demo_runner demo_gc_env of
      (r', eff) \<Rightarrow>
        inspections eff = [''a'', ''b''] \<and>
        registry r' = [(''b'', 0), (''c'', 1000)] \<and>
        warnings eff = [(''Failed to inspect container %s: %#v'', ''b'', OtherError ''i/o timeout'')] \<and>
        removals eff = [])"
  using gc_pass_inspection_failures [of demo_runner demo_gc_env]
  by (simp add: gc_pass_def gatherCollectableContainerIDs_def registry_def demo_runner_def
      demo_gc_env_def gc_candidate_def isNoSuchContainer_def maskAny_def unrecordContainerID_def
      Let_def)

theorem gather_candidates_witness:
  "gatherCollectableContainerIDs demo_runner 700 = [''a'', ''b''] \<and>
   distinct (map fst (registry demo_runner)) \<and>
   ''c'' \<notin> set (gatherCollectableContainerIDs demo_runner 700)"
  using gather_candidates [of demo_runner 700 demo_gc_env]
  by (simp add: gatherCollectableContainerIDs_def registry_def demo_runner_def Let_def)

theorem canGC_classification_witness:
  "\<not> canGC demo_runner 300 \<lparr>ID = ''a'', Created = 0, State = \<lparr>StateString = ''created'', FinishedAt = 0\<rparr>\<rparr> \<and>
   canGC demo_runner 660 \<lparr>ID = ''a'', Created = 0, State = \<lparr>StateString = ''created'', FinishedAt = 0\<rparr>\<rparr> \<and>
   canGC demo_runner 660 \<lparr>ID = ''a'', Created = 0, State = \<lparr>StateString = ''exited'', FinishedAt = 50\<rparr>\<rparr> \<and>
   \<not> canGC demo_runner 660 \<lparr>ID = ''a'', Created = 0, State = \<lparr>StateString = ''exited'', FinishedAt = 100\<rparr>\<rparr> \<and>
   \<not> canGC demo_runner 660 \<lparr>ID = ''a'', Created = 0, State = \<lparr>StateString = ''running'', FinishedAt = 0\<rparr>\<rparr> \<and>
   removals (snd (gc_candidate demo_runner
      (demo_gc_env\<lparr>on_inspect := (\<lambda>i. Inr \<lparr>ID = ''a'', Created = 0,
          State = \<lparr>StateString = ''dead'', FinishedAt = 50\<rparr>\<rparr>)\<rparr>) ''a'')) = [(''a'', False)]"
  using
    canGC_classification [of demo_runner 300
      "\<lparr>ID = ''a'', Created = 0, State = \<lparr>StateString = ''created'', FinishedAt = 0\<rparr>\<rparr>"]
    canGC_classification [of demo_runner 660
      "\<lparr>ID = ''a'', Created = 0, State = \<lparr>StateString = ''created'', FinishedAt = 0\<rparr>\<rparr>"]
    canGC_classification [of demo_runner 660
      "\<lparr>ID = ''a'', Created = 0, State = \<lparr>StateString = ''exited'', FinishedAt = 50\<rparr>\<rparr>"]
    canGC_classification [of demo_runner 660
      "\<lparr>ID = ''a'', Created = 0, State = \<lparr>StateString = ''exited'', FinishedAt = 100\<rparr>\<rparr>"]
    canGC_classification [of demo_runner 660
      "\<lparr>ID = ''a'', Created = 0, State = \<lparr>StateString = ''running'', FinishedAt = 0\<rparr>\<rparr>"]
    canGC_classification [of demo_runner 0
      "\<lparr>ID = ''a'', Created = 0, State = \<lparr>StateString = ''dead'', FinishedAt = 50\<rparr>\<rparr>"
      "demo_gc_env\<lparr>on_inspect := (\<lambda>i. Inr \<lparr>ID = ''a'', Created = 0,
          State = \<lparr>StateString = ''dead'', FinishedAt = 50\<rparr>\<rparr>)\<rparr>" "''a''"]
  by (simp add: demo_runner_def demo_gc_env_def canGC_def Let_def)

theorem Cleanup_all_witness:
  "(case Cleanup demo_runner
       (\<lambda>i. if i = ''a'' then Some (NoSuchContainer ''a'')
             else if i = ''b'' then Some (OtherError ''device busy'') else None) of
      (r', err, eff) \<Rightarrow>
        err = None \<and> containerIDs r' = None \<and>
        removals eff = [(''a'', True), (''b'', True), (''c'', True)] \<and>
        warnings eff = [(''Failed to remove container %s: %#v'', ''b'', OtherError ''device busy'')])"
  using Cleanup_all [of demo_runner "(\<lambda>i. if i = ''a'' then Some (NoSuchContainer ''a'')
             else if i = ''b'' then Some (OtherError ''device busy'') else None)"]
  by (simp add: Cleanup_def registry_def demo_runner_def isNoSuchContainer_def)

subsection \<open>Sequences of operations\<close>

lemma registered_nil: "containerIDs r = None \<Longrightarrow> registered r = {}"
  by (simp add: registered_def registry_def)

lemma registered_gc_loop:
  "registered (fst (gc_loop r env ids)) = registered r - {i \<in> set ids. removable r env i}"
  unfolding registered_def gc_loop_registry by force

lemma set_gather:
  "set (gatherCollectableContainerIDs r now) =
     {i \<in> registered r. \<exists>(k, ts) \<in> set (registry r). k = i \<and> ts < now - gcDelay r}"
  unfolding gather_eq registered_def by force

lemma step_Start:
  "step r (EvStart env command args volumes ports n) = Inr r' \<Longrightarrow>
   registered r' = registered r \<union> created_by (EvStart env command args volumes ports n)"
proof (cases "on_pull env")
  case (Some e)
  assume "step r (EvStart env command args volumes ports n) = Inr r'"
  then show ?thesis using Some by (auto simp: Start_pull_fails)
next
  case None
  assume st: "step r (EvStart env command args volumes ports n) = Inr r'"
  show ?thesis
  proof (cases "on_create env")
    case (Inl e)
    then show ?thesis using st None by (auto simp: Start_create_fails)
  next
    case (Inr c)
    show ?thesis
    proof (cases "containerIDs r")
      case None': None
      then show ?thesis using st None Inr by (simp add: Start_nil_map)
    next
      case (Some m)
      then show ?thesis using st None Inr
        by (auto simp: Start_created registered_update)
    qed
  qed
qed

lemma step_registered:
  "step r ev = Inr r' \<Longrightarrow> registered r' = (registered r - removed_by r ev) \<union> created_by ev"
proof (cases ev)
  case (EvStart env command args volumes ports n)
  assume "step r ev = Inr r'"
  then show ?thesis using EvStart step_Start [of r env command args volumes ports n r'] by simp
next
  case (EvCleanup on_rm)
  assume "step r ev = Inr r'"
  then show ?thesis using EvCleanup by (auto simp: Cleanup_def registered_nil)
next
  case (EvCollect env)
  assume st: "step r ev = Inr r'"
  show ?thesis
  proof (cases "gcOnce r")
    case True
    then have "r' = fst (gc_loop r env (gatherCollectableContainerIDs r (on_gather env)))"
      using st EvCollect by (simp add: gc_pass_def)
    then show ?thesis
      unfolding EvCollect using True
      by (simp only: registered_gc_loop set_gather removed_by.simps created_by.simps if_True)
         blast
  next
    case False
    then show ?thesis using st EvCollect by auto
  qed
next
  case (EvHandleCleanup p on_rm)
  assume "step r ev = Inr r'"
  then show ?thesis using EvHandleCleanup by auto
qed

lemma run_registered:
  "run r evs = Inr r' \<Longrightarrow>
   registered r' = {i \<in> registered r. \<not> removed_later r evs i} \<union> live r evs"
proof (induction evs arbitrary: r)
  case Nil
  then show ?case by simp
next
  case (Cons ev evs)
  from Cons.prems obtain r1 where r1: "step r ev = Inr r1" and rest: "run r1 evs = Inr r'"
    by (auto split: sum.splits)
  have a: "registered r1 = (registered r - removed_by r ev) \<union> created_by ev"
    by (rule step_registered [OF r1])
  have b: "registered r' = {i \<in> registered r1. \<not> removed_later r1 evs i} \<union> live r1 evs"
    by (rule Cons.IH [OF rest])
  show ?case
    unfolding b a using r1 by auto
qed

lemma run_append:
  "run r (evs @ evs') = (case run r evs of Inl p \<Rightarrow> Inl p | Inr r' \<Rightarrow> run r' evs')"
  by (induction evs arbitrary: r) (auto split: sum.splits)

lemma step_nil: "containerIDs r = None \<Longrightarrow> step r ev = Inr r' \<Longrightarrow> containerIDs r' = None"
proof (cases ev)
  case (EvStart env command args volumes ports n)
  assume nil: "containerIDs r = None" and st: "step r ev = Inr r'"
  show ?thesis
  proof (cases "on_pull env")
    case (Some e)
    then show ?thesis using nil st EvStart by (auto simp: Start_pull_fails)
  next
    case None
    show ?thesis
    proof (cases "on_create env")
      case (Inl e)
      then show ?thesis using nil st EvStart None by (auto simp: Start_create_fails)
    next
      case (Inr c)
      then show ?thesis using nil st EvStart None by (simp add: Start_nil_map)
    qed
  qed
next
  case (EvCleanup on_rm)
  assume "containerIDs r = None" and "step r ev = Inr r'"
  then show ?thesis using EvCleanup by (auto simp: Cleanup_def)
next
  case (EvCollect env)
  assume "containerIDs r = None" and "step r ev = Inr r'"
  then show ?thesis using EvCollect
    by (auto simp: gc_pass_def gc_loop_nil split: if_splits)
next
  case (EvHandleCleanup p on_rm)
  assume "containerIDs r = None" and "step r ev = Inr r'"
  then show ?thesis using EvHandleCleanup by auto
qed

lemma run_nil: "containerIDs r = None \<Longrightarrow> run r evs = Inr r' \<Longrightarrow> containerIDs r' = None"
proof (induction evs arbitrary: r)
  case Nil
  then show ?case by simp
next
  case (Cons ev evs)
  from Cons.prems(2) obtain r1 where r1: "step r ev = Inr r1" and rest: "run r1 evs = Inr r'"
    by (auto split: sum.splits)
  show ?case
    by (rule Cons.IH [OF step_nil [OF Cons.prems(1) r1] rest])
qed

text \<open>
  C2 (as amended). After every sequence of Start, Cleanup, handle Cleanup and collector
  operations that a new runner completes, the registered identifiers are exactly the
  identifiers of the containers whose creation succeeded in a Start of the sequence,
  whether or not their start succeeded afterwards, and that no later Cleanup or pass of
  the collector has unregistered.
\<close>

theorem registry_tracks_created:
  "run (NewDockerRunner img usr vf delay) evs = Inr r' \<Longrightarrow>
   registered r' = live (NewDockerRunner img usr vf delay) evs"
proof -
  assume a: "run (NewDockerRunner img usr vf delay) evs = Inr r'"
  have "registered (NewDockerRunner img usr vf delay) = {}"
    by (simp add: registered_def registry_def NewDockerRunner_def)
  then show ?thesis using run_registered [OF a] by simp
qed

lemma demo_run:
  "run (NewDockerRunner ''arangodb/arangodb'' [] [] 600) demo_events =
     Inr \<lparr>image_ref = ''arangodb/arangodb'', user = [], volumesFrom = [],
          containerIDs = Some [(''c2'', 10)], gcOnce = True, gcDelay = 600\<rparr>"
  by (simp add: demo_events_def demo_start_env_def demo_container_def NewDockerRunner_def
      Start_def Let_def recordContainerID_def gc_pass_def gatherCollectableContainerIDs_def
      registry_def gc_candidate_def isNoSuchContainer_def unrecordContainerID_def canGC_def)

theorem registry_tracks_created_witness:
  "registered \<lparr>image_ref = ''arangodb/arangodb'', user = [], volumesFrom = [],
          containerIDs = Some [(''c2'', 10)], gcOnce = True, gcDelay = 600\<rparr> =
     live (NewDockerRunner ''arangodb/arangodb'' [] [] 600) demo_events \<and>
   registered \<lparr>image_ref = ''arangodb/arangodb'', user = [], volumesFrom = [],
          containerIDs = Some [(''c2'', 10)], gcOnce = True, gcDelay = 600\<rparr> = {''c2''}"
  using registry_tracks_created [OF demo_run]
  by (simp add: registered_def registry_def)

text \<open>
  C2 (as stated) fails: a Start whose creation succeeds and whose start fails returns an
  error, and the identifier of its container is registered.
\<close>

theorem registry_counterexample:
  "(case Start (NewDockerRunner ''arangodb/arangodb'' [] [] 600)
      (demo_start_env ''c2'' (Some (OtherError ''port is already allocated'')) 10)
      ''arangod'' [] [] [8529] ''node2'' of
     Inl p \<Rightarrow> False
   | Inr (r', res, eff) \<Rightarrow>
       res = Inl (maskAny (OtherError ''port is already allocated'')) \<and>
       registry r' = [(''c2'', 10)])"
  by (simp add: demo_start_env_def demo_container_def NewDockerRunner_def
      Start_def Let_def recordContainerID_def registry_def)

text \<open>
  C9 (as amended). Cleanup of a container handle leaves the registry of the runner as it
  is: a sequence of operations ends in the same runner with or without it. The identifier
  stays registered until Cleanup of the runner, or until a pass of the collector that has
  it as a candidate is told by the inspection that the container no longer exists, and
  unregisters it.
\<close>

theorem handle_Cleanup_keeps_registry:
  "run r (evs @ EvHandleCleanup p on_rm # evs') = run r (evs @ evs') \<and>
   (gcOnce r \<and> on_inspect env (ID (container p)) = Inl e \<and> isNoSuchContainer e \<and>
    (\<exists>ts. (ID (container p), ts) \<in> set (registry r) \<and> ts < on_gather env - gcDelay r) \<longrightarrow>
      (case step r (EvCollect env) of
         Inl x \<Rightarrow> False
       | Inr r' \<Rightarrow> ID (container p) \<notin> registered r'))"
proof
  show "run r (evs @ EvHandleCleanup p on_rm # evs') = run r (evs @ evs')"
    by (simp add: run_append split: sum.splits)
  show "gcOnce r \<and> on_inspect env (ID (container p)) = Inl e \<and> isNoSuchContainer e \<and>
    (\<exists>ts. (ID (container p), ts) \<in> set (registry r) \<and> ts < on_gather env - gcDelay r) \<longrightarrow>
      (case step r (EvCollect env) of
         Inl x \<Rightarrow> False
       | Inr r' \<Rightarrow> ID (container p) \<notin> registered r')"
  proof
    assume a: "gcOnce r \<and> on_inspect env (ID (container p)) = Inl e \<and> isNoSuchContainer e \<and>
      (\<exists>ts. (ID (container p), ts) \<in> set (registry r) \<and> ts < on_gather env - gcDelay r)"
    then have cand: "ID (container p) \<in> set (gatherCollectableContainerIDs r (on_gather env))"
      unfolding gather_eq by force
    have "removable r env (ID (container p))" using a by (simp add: removable_def)
    then have "ID (container p) \<notin> registered (fst (gc_pass r env))"
      using cand by (simp add: gc_pass_def registered_gc_loop)
    then show "case step r (EvCollect env) of
         Inl x \<Rightarrow> False
       | Inr r' \<Rightarrow> ID (container p) \<notin> registered r'"
      using a by simp
  qed
qed

text \<open>
  C9 (as stated) fails: after a Start that creates c1 and a successful Cleanup of its
  handle, c1 is still registered.
\<close>

theorem handle_Cleanup_counterexample:
  "dockerContainer_Cleanup \<lparr>container = demo_container ''c1''\<rparr> None =
     (None, [RemoveContainer ''c1'' True]) \<and>
   run (NewDockerRunner ''arangodb/arangodb'' [] [] 600)
     [EvStart (demo_start_env ''c1'' None 0) ''arangod'' [] [] [8529] ''node1'',
      EvHandleCleanup \<lparr>container = demo_container ''c1''\<rparr> None] =
     Inr \<lparr>image_ref = ''arangodb/arangodb'', user = [], volumesFrom = [],
          containerIDs = Some [(''c1'', 0)], gcOnce = True, gcDelay = 600\<rparr>"
  by (simp add: dockerContainer_Cleanup_def demo_start_env_def demo_container_def
      NewDockerRunner_def Start_def Let_def recordContainerID_def)

theorem handle_Cleanup_keeps_registry_witness:
  "run (NewDockerRunner ''arangodb/arangodb'' [] [] 600)
     ([EvStart (demo_start_env ''c1'' None 0) ''arangod'' [] [] [8529] ''node1''] @
      EvHandleCleanup \<lparr>container = demo_container ''c1''\<rparr> None # []) =
   run (NewDockerRunner ''arangodb/arangodb'' [] [] 600)
     ([EvStart (demo_start_env ''c1'' None 0) ''arangod'' [] [] [8529] ''node1''] @ []) \<and>
   (case step demo_runner (EvCollect demo_gc_env) of
      Inl x \<Rightarrow> False
    | Inr r' \<Rightarrow> ID (container \<lparr>container = demo_container ''a''\<rparr>) \<notin> registered r')"
  using
    handle_Cleanup_keeps_registry [of "NewDockerRunner ''arangodb/arangodb'' [] [] 600"
      "[EvStart (demo_start_env ''c1'' None 0) ''arangod'' [] [] [8529] ''node1'']"
      "\<lparr>container = demo_container ''c1''\<rparr>" None "[]"]
    handle_Cleanup_keeps_registry [of demo_runner "[]"
      "\<lparr>container = demo_container ''a''\<rparr>" None "[]" demo_gc_env
      "maskAny (NoSuchContainer ''a'')"]
  by (simp add: demo_runner_def demo_gc_env_def demo_container_def registry_def
      isNoSuchContainer_def maskAny_def)

text \<open>
  C10. Cleanup leaves the map of identifiers nil, and it stays nil through every later
  sequence of operations; a Start whose pull and creation succeed then panics on the
  assignment to the nil map.
\<close>

theorem Start_after_Cleanup_panics:
  "containerIDs (fst (Cleanup r on_rm)) = None \<and>
   (run (fst (Cleanup r on_rm)) evs = Inr r' \<and> on_pull env = None \<and> on_create env = Inr c \<longrightarrow>
      Start r' env command args volumes ports containerName = Inl AssignmentToNilMap)"
proof
  show nil: "containerIDs (fst (Cleanup r on_rm)) = None"
    by (simp add: Cleanup_def)
  show "run (fst (Cleanup r on_rm)) evs = Inr r' \<and> on_pull env = None \<and> on_create env = Inr c \<longrightarrow>
      Start r' env command args volumes ports containerName = Inl AssignmentToNilMap"
  proof
    assume a: "run (fst (Cleanup r on_rm)) evs = Inr r' \<and> on_pull env = None \<and> on_create env = Inr c"
    then have "containerIDs r' = None" using run_nil [OF nil] by blast
    then show "Start r' env command args volumes ports containerName = Inl AssignmentToNilMap"
      using a by (simp add: Start_nil_map)
  qed
qed

theorem Start_after_Cleanup_panics_witness:
  "containerIDs (fst (Cleanup demo_runner (\<lambda>i. None))) = None \<and>
   Start (demo_runner\<lparr>containerIDs := None\<rparr>) (demo_start_env ''c3'' None 2000)
     ''arangod'' [] [] [8529] ''node3'' = Inl AssignmentToNilMap"
  using Start_after_Cleanup_panics [of demo_runner "\<lambda>i. None" "[EvCollect demo_gc_env]"
      "demo_runner\<lparr>containerIDs := None\<rparr>" "demo_start_env ''c3'' None 2000"
      "demo_container ''c3''" "''arangod''" "[]" "[]" "[8529]" "''node3''"]
  by (simp add: Cleanup_def demo_runner_def demo_gc_env_def demo_start_env_def gc_pass_def
      gatherCollectableContainerIDs_def registry_def)

end
